theory Spec2Isabelle
  imports Main "HOL-Library.Sublist"
begin

section \<open>Python values used by the onboarding scripts\<close>

text \<open>
  A Python \<open>str\<close> is a sequence of Unicode code points, and \<open>chr\<close>, \<open>len\<close> and slicing
  count code points. A string is therefore a list of code points (Python's unbounded
  \<open>int\<close>), not a list of bytes. \<open>str\<close> reads an ASCII literal as such a string.
\<close>

type_synonym pystr = "int list"

definition str :: "string \<Rightarrow> pystr" where
  "str s = map of_char s"

datatype py_error = ZeroDivisionError | IndexError | ValueError

text \<open>\<open>chr(k)\<close> raises ValueError outside \<open>range(0x110000)\<close>.\<close>

definition py_chr :: "int \<Rightarrow> py_error + int" where
  "py_chr k = (if 0 \<le> k \<and> k \<le> 1114111 then Inr k else Inl ValueError)"

text \<open>\<open>a % b\<close> on integers: ZeroDivisionError when \<open>b\<close> is zero, otherwise the
  remainder of floor division (the sign of \<open>b\<close>), which is \<open>mod\<close> on \<open>int\<close>.\<close>

definition py_mod :: "int \<Rightarrow> int \<Rightarrow> py_error + int" where
  "py_mod a b = (if b = 0 then Inl ZeroDivisionError else Inr (a mod b))"

text \<open>\<open>xs[i]\<close> on a list: an index from \<open>-len(xs)\<close> up to \<open>-1\<close> counts from the end,
  anything outside \<open>-len(xs) .. len(xs) - 1\<close> raises IndexError.\<close>

definition py_getitem :: "'a list \<Rightarrow> int \<Rightarrow> py_error + 'a" where
  "py_getitem xs i =
     (if 0 \<le> i \<and> i < int (length xs) then Inr (xs ! nat i)
      else if i < 0 \<and> - int (length xs) \<le> i then Inr (xs ! nat (int (length xs) + i))
      else Inl IndexError)"

text \<open>\<open>s.startswith(p)\<close> and the substring test \<open>sub in s\<close>, by scanning \<open>s\<close> from the
  left.\<close>

fun startswith :: "pystr \<Rightarrow> pystr \<Rightarrow> bool" where
  "startswith s [] = True"
| "startswith [] (p # ps) = False"
| "startswith (c # cs) (p # ps) = (c = p \<and> startswith cs ps)"

fun str_in :: "pystr \<Rightarrow> pystr \<Rightarrow> bool" where
  "str_in sub [] = (sub = [])"
| "str_in sub (c # cs) = (startswith (c # cs) sub \<or> str_in sub cs)"

text \<open>
  \<open>str.lower\<close> follows the Unicode case tables of the interpreter, which are not part of
  the scripts. Every function below that lower-cases takes the lower-casing function as
  its first argument \<open>lower\<close>, so that what is proved of it holds for any such table.
  \<open>ascii_lower\<close> is the instance that agrees with \<open>str.lower\<close> on ASCII strings; it is
  used to run the model on concrete inputs.
\<close>

definition ascii_lower :: "pystr \<Rightarrow> pystr" where
  "ascii_lower s = map (\<lambda>c. if 65 \<le> c \<and> c \<le> 90 then c + 32 else c) s"

section \<open>user.py: the filterable group list\<close>

text \<open>
  A group as \<open>retrieve_groups\<close> hands it to the selector, and a role as \<open>get_roles\<close>
  hands it to the role picker: a JSON object of the identity provider of which the
  scripts read the keys \<open>name\<close> and \<open>id\<close>, both strings.
\<close>

record item =
  name :: pystr
  ident :: pystr

text \<open>The key codes of the curses library that \<open>display_filterable_list\<close> compares
  with.\<close>

definition KEY_DOWN :: int where "KEY_DOWN = 258"
definition KEY_UP :: int where "KEY_UP = 259"
definition KEY_BACKSPACE :: int where "KEY_BACKSPACE = 263"
definition KEY_ENTER :: int where "KEY_ENTER = 343"

text \<open>
  The list comprehension of line 51,
  \<^verbatim>\<open>[opt for opt in options if search_text.lower() in opt['name'].lower()]\<close>,
  walks \<open>options\<close> from the front and keeps the options that pass the test.
\<close>

fun filtered_options :: "(pystr \<Rightarrow> pystr) \<Rightarrow> item list \<Rightarrow> pystr \<Rightarrow> item list" where
  "filtered_options lower [] search_text = []"
| "filtered_options lower (opt # options) search_text =
     (if str_in (lower search_text) (lower (name opt))
      then opt # filtered_options lower options search_text
      else filtered_options lower options search_text)"

text \<open>
  The variables of the loop are \<open>current_row\<close> and \<open>search_text\<close>. One pass of the
  \<open>while True\<close> loop recomputes the filtered list from \<open>search_text\<close>, draws it, reads
  one key with \<open>getch\<close> and branches on it. The pass either goes round again with new
  variables (\<open>Active\<close>), returns (\<open>Returned\<close>, with \<open>None\<close> for Python's \<open>None\<close>) or
  raises (\<open>Raised\<close>); nothing inside the function catches an exception. The calls that
  draw on the screen (\<open>clear\<close>, \<open>addstr\<close>, \<open>attron\<close>, \<open>attroff\<close>, \<open>refresh\<close>) change no
  variable of the loop and are left out: the model is of the key handling, with a
  terminal that accepts every write.
\<close>

record selector_state =
  current_row :: int
  search_text :: pystr

datatype outcome = Active selector_state | Returned "pystr option" | Raised py_error

definition display_step ::
  "(pystr \<Rightarrow> pystr) \<Rightarrow> item list \<Rightarrow> selector_state \<Rightarrow> int \<Rightarrow> outcome" where
  "display_step lower options st key =
     (let filtered = filtered_options lower options (search_text st) in
      if key = KEY_UP then
        (case py_mod (current_row st - 1) (int (length filtered)) of
           Inl e \<Rightarrow> Raised e
         | Inr r \<Rightarrow> Active (st\<lparr>current_row := r\<rparr>))
      else if key = KEY_DOWN then
        (case py_mod (current_row st + 1) (int (length filtered)) of
           Inl e \<Rightarrow> Raised e
         | Inr r \<Rightarrow> Active (st\<lparr>current_row := r\<rparr>))
      else if key = KEY_BACKSPACE \<or> key = 127 then
        Active (st\<lparr>search_text := butlast (search_text st)\<rparr>)
      else if key = KEY_ENTER \<or> key = 10 \<or> key = 13 then
        (case py_getitem filtered (current_row st) of
           Inl e \<Rightarrow> Raised e
         | Inr opt \<Rightarrow> Returned (Some (ident opt)))
      else if key = 27 then Returned None
      else
        (case py_chr key of
           Inl e \<Rightarrow> Raised e
         | Inr c \<Rightarrow> Active (st\<lparr>search_text := search_text st @ [c]\<rparr>)))"

text \<open>
  The loop, driven by the keys that \<open>getch\<close> delivers, in order. \<open>getch\<close> blocks until a
  key arrives, so on a finite list of keys the loop is still \<open>Active\<close> (waiting for the
  next key) when the list is used up without a return or an exception.
\<close>

fun display_loop ::
  "(pystr \<Rightarrow> pystr) \<Rightarrow> item list \<Rightarrow> selector_state \<Rightarrow> int list \<Rightarrow> outcome" where
  "display_loop lower options st [] = Active st"
| "display_loop lower options st (key # keys) =
     (case display_step lower options st key of
        Active st' \<Rightarrow> display_loop lower options st' keys
      | Returned r \<Rightarrow> Returned r
      | Raised e \<Rightarrow> Raised e)"

definition display_filterable_list ::
  "(pystr \<Rightarrow> pystr) \<Rightarrow> int list \<Rightarrow> item list \<Rightarrow> outcome" where
  "display_filterable_list lower stdscr options =
     display_loop lower options \<lparr>current_row = 0, search_text = []\<rparr> stdscr"

text \<open>The option list of the scenarios: Team A, Team B and Alpha, with identifiers 1, 2
  and 3.\<close>

definition teams :: "item list" where
  "teams = [\<lparr>name = str ''Team A'', ident = str ''1''\<rparr>,
            \<lparr>name = str ''Team B'', ident = str ''2''\<rparr>,
            \<lparr>name = str ''Alpha'', ident = str ''3''\<rparr>]"

text \<open>The cursor points into the filtered list of the state: the invariant that the
  selector's data model asks for while that list is not empty.\<close>

definition cursor_in_view :: "(pystr \<Rightarrow> pystr) \<Rightarrow> item list \<Rightarrow> selector_state \<Rightarrow> bool" where
  "cursor_in_view lower options st =
     (0 \<le> current_row st \<and>
      current_row st < int (length (filtered_options lower options (search_text st))))"

section \<open>group.py: the role picker\<close>

text \<open>
  \<open>str.split(",")\<close>: the pieces between the commas, in order; a string without a comma
  is one piece, and so is the empty string. The result is never empty, so the first
  branch of the inner \<open>case\<close> is never taken.
\<close>

fun split_on :: "int \<Rightarrow> pystr \<Rightarrow> pystr list" where
  "split_on sep [] = [[]]"
| "split_on sep (c # cs) =
     (if c = sep then [] # split_on sep cs
      else (case split_on sep cs of
              [] \<Rightarrow> [[c]]
            | t # ts \<Rightarrow> (c # t) # ts))"

text \<open>
  \<open>str.strip\<close> and \<open>int\<close> on a string follow the interpreter's Unicode tables (white
  space, decimal digits of every script), so \<open>select_roles\<close> takes them as the arguments
  \<open>strip\<close> and \<open>py_int\<close>; \<open>py_int\<close> gives \<open>None\<close> where \<open>int\<close> raises ValueError.
  \<open>ascii_strip\<close> and \<open>ascii_int\<close> are instances for ASCII text, used to run the model:
  white space around the number, an optional sign, and decimal digits with single
  underscores between them.
\<close>

definition ascii_space :: "int \<Rightarrow> bool" where
  "ascii_space c = ((9 \<le> c \<and> c \<le> 13) \<or> (28 \<le> c \<and> c \<le> 32))"

definition ascii_strip :: "pystr \<Rightarrow> pystr" where
  "ascii_strip s = rev (dropWhile ascii_space (rev (dropWhile ascii_space s)))"

definition ascii_digit :: "int \<Rightarrow> bool" where
  "ascii_digit c = (48 \<le> c \<and> c \<le> 57)"

fun read_digits :: "int \<Rightarrow> pystr \<Rightarrow> int option" where
  "read_digits acc [] = Some acc"
| "read_digits acc (c # cs) =
     (if ascii_digit c then read_digits (10 * acc + (c - 48)) cs
      else if c = 95 then
        (case cs of
           [] \<Rightarrow> None
         | d # ds \<Rightarrow> if ascii_digit d then read_digits (10 * acc + (d - 48)) ds else None)
      else None)"

fun read_number :: "pystr \<Rightarrow> int option" where
  "read_number [] = None"
| "read_number (d # ds) = (if ascii_digit d then read_digits (d - 48) ds else None)"

definition ascii_int :: "pystr \<Rightarrow> int option" where
  "ascii_int s =
     (case ascii_strip s of
        [] \<Rightarrow> None
      | c # cs \<Rightarrow>
          if c = 45 then map_option uminus (read_number cs)
          else if c = 43 then read_number cs
          else read_number (c # cs))"

text \<open>
  The two ValueErrors that the \<open>try\<close> block of \<open>select_roles\<close> can raise: the one of
  \<open>int\<close>, for the text it could not read, and the one the function raises itself for an
  index outside the roles. Both are caught by the one \<open>except ValueError\<close>, which prints
  the message and calls \<open>sys.exit(1)\<close>.
\<close>

datatype value_error = InvalidLiteral pystr | InvalidRoleSelection

datatype exit = SystemExit int

text \<open>The lines the function writes: the heading, one numbered line for each role,
  the prompt of \<open>input\<close>, and the input error.\<close>

datatype line = Heading | RoleLine int pystr | Prompt | InputError value_error

text \<open>
  \<^verbatim>\<open>[int(index.strip()) - 1 for index in selected_indices.split(",")]\<close>: every piece
  is read before any index is looked at, and the first piece that \<open>int\<close> rejects raises.
\<close>

fun parse_indices ::
  "(pystr \<Rightarrow> pystr) \<Rightarrow> (pystr \<Rightarrow> int option) \<Rightarrow> pystr list \<Rightarrow> value_error + int list" where
  "parse_indices strip py_int [] = Inr []"
| "parse_indices strip py_int (index # rest) =
     (case py_int (strip index) of
        None \<Rightarrow> Inl (InvalidLiteral (strip index))
      | Some i \<Rightarrow>
          (case parse_indices strip py_int rest of
             Inl e \<Rightarrow> Inl e
           | Inr selected \<Rightarrow> Inr ((i - 1) # selected)))"

text \<open>
  The \<open>for\<close> loop over the indices, with \<open>selected_role_ids\<close> as it grows. The test
  before \<open>roles[index]\<close> keeps the index inside the list, so the lookup is
  \<open>roles ! nat index\<close>.
\<close>

fun collect_role_ids :: "item list \<Rightarrow> int list \<Rightarrow> pystr list \<Rightarrow> value_error + pystr list" where
  "collect_role_ids roles [] selected_role_ids = Inr selected_role_ids"
| "collect_role_ids roles (index # rest) selected_role_ids =
     (if index < 0 \<or> index \<ge> int (length roles) then Inl InvalidRoleSelection
      else collect_role_ids roles rest (selected_role_ids @ [ident (roles ! nat index)]))"

text \<open>\<open>enumerate(roles)\<close>, printed as \<open>i+1\<close> and the role's name.\<close>

fun role_lines :: "int \<Rightarrow> item list \<Rightarrow> line list" where
  "role_lines i [] = []"
| "role_lines i (role # roles) = RoleLine (i + 1) (name role) # role_lines (i + 1) roles"

text \<open>
  \<open>select_roles\<close>, with the line the operator types at the prompt as \<open>typed\<close>. The result
  is what was printed, and either the list the function returns or the exit status.
\<close>

definition select_roles ::
  "(pystr \<Rightarrow> pystr) \<Rightarrow> (pystr \<Rightarrow> int option) \<Rightarrow> item list \<Rightarrow> pystr \<Rightarrow>
   line list \<times> (exit + pystr list)" where
  "select_roles strip py_int roles typed =
     (let printed = Heading # role_lines 0 roles @ [Prompt] in
      case (case parse_indices strip py_int (split_on 44 typed) of
              Inl ve \<Rightarrow> Inl ve
            | Inr selected_indices \<Rightarrow> collect_role_ids roles selected_indices [])
      of
        Inl ve \<Rightarrow> (printed @ [InputError ve], Inl (SystemExit 1))
      | Inr selected_role_ids \<Rightarrow> (printed, Inr selected_role_ids))"

text \<open>The roles of the examples: admin, editor and viewer, with identifiers r1, r2 and
  r3.\<close>

definition three_roles :: "item list" where
  "three_roles = [\<lparr>name = str ''admin'', ident = str ''r1''\<rparr>,
                  \<lparr>name = str ''editor'', ident = str ''r2''\<rparr>,
                  \<lparr>name = str ''viewer'', ident = str ''r3''\<rparr>]"

section \<open>The substring test\<close>

lemma startswith_prefix: "startswith s p = prefix p s"
  by (induction s p rule: startswith.induct) auto

lemma str_in_sublist: "str_in sub s = sublist sub s"
  by (induction s) (simp_all add: startswith_prefix sublist_Cons_right)

lemma str_in_iff: "str_in sub s \<longleftrightarrow> (\<exists>pre suf. s = pre @ sub @ suf)"
  by (simp add: str_in_sublist sublist_def)

lemma str_in_empty: "str_in [] s"
  by (simp add: str_in_sublist)

section \<open>One pass of the loop, key by key\<close>

lemmas key_defs = KEY_UP_def KEY_DOWN_def KEY_BACKSPACE_def KEY_ENTER_def

lemma step_up:
  "display_step lower options st KEY_UP =
     (if filtered_options lower options (search_text st) = [] then Raised ZeroDivisionError
      else Active (st\<lparr>current_row :=
        (current_row st - 1) mod int (length (filtered_options lower options (search_text st)))\<rparr>))"
  by (simp add: display_step_def py_mod_def)

lemma step_down:
  "display_step lower options st KEY_DOWN =
     (if filtered_options lower options (search_text st) = [] then Raised ZeroDivisionError
      else Active (st\<lparr>current_row :=
        (current_row st + 1) mod int (length (filtered_options lower options (search_text st)))\<rparr>))"
  by (simp add: display_step_def py_mod_def key_defs)


lemma step_enter:
  "key = KEY_ENTER \<or> key = 10 \<or> key = 13 \<Longrightarrow>
   display_step lower options st key =
     (case py_getitem (filtered_options lower options (search_text st)) (current_row st) of
        Inl e \<Rightarrow> Raised e
      | Inr opt \<Rightarrow> Returned (Some (ident opt)))"
  by (auto simp add: display_step_def key_defs)

lemma step_escape: "display_step lower options st 27 = Returned None"
  by (simp add: display_step_def key_defs)


text \<open>The cursor moves on the arrow keys only, and the search text on the other keys
  only.\<close>

lemma step_active_cases:
  assumes "display_step lower options st key = Active st'"
  shows "((key = KEY_UP \<or> key = KEY_DOWN) \<and> search_text st' = search_text st \<and>
          filtered_options lower options (search_text st) \<noteq> [] \<and> 0 \<le> current_row st' \<and>
          current_row st' < int (length (filtered_options lower options (search_text st))))
       \<or> (key \<noteq> KEY_UP \<and> key \<noteq> KEY_DOWN \<and> current_row st' = current_row st)"
proof (cases "key = KEY_UP \<or> key = KEY_DOWN")
  case True
  then show ?thesis
    using assms by (auto simp add: step_up step_down split: if_splits)
next
  case False
  then have "current_row st' = current_row st"
    using assms
    by (auto simp add: display_step_def Let_def py_chr_def split: if_splits sum.splits)
  with False show ?thesis by simp
qed

lemma step_cursor_nonneg:
  "display_step lower options st key = Active st' \<Longrightarrow> 0 \<le> current_row st \<Longrightarrow>
   0 \<le> current_row st'"
  using step_active_cases [of lower options st key st'] by auto

lemma loop_cursor_nonneg:
  "display_loop lower options st keys = Active st' \<Longrightarrow> 0 \<le> current_row st \<Longrightarrow>
   0 \<le> current_row st'"
proof (induction keys arbitrary: st)
  case Nil
  then show ?case by simp
next
  case (Cons key keys)
  then show ?case
    by (cases "display_step lower options st key") (auto dest: step_cursor_nonneg)
qed

lemma loop_append:
  "display_loop lower options st (ks @ ks') =
     (case display_loop lower options st ks of
        Active st' \<Rightarrow> display_loop lower options st' ks'
      | Returned r \<Rightarrow> Returned r
      | Raised e \<Rightarrow> Raised e)"
  by (induction ks arbitrary: st) (simp_all split: outcome.splits)

lemma loop_downs:
  assumes "length (filtered_options lower options (search_text st)) = n"
      and "0 \<le> current_row st" and "current_row st < int n"
  shows "display_loop lower options st (replicate k KEY_DOWN) =
           Active (st\<lparr>current_row := (current_row st + int k) mod int n\<rparr>)"
  using assms
proof (induction k arbitrary: st)
  case 0
  then show ?case by simp
next
  case (Suc k)
  let ?st1 = "st\<lparr>current_row := (current_row st + 1) mod int n\<rparr>"
  from Suc.prems have n: "0 < n" by simp
  with Suc.prems have step: "display_step lower options st KEY_DOWN = Active ?st1"
    by (auto simp add: step_down)
  have "display_loop lower options ?st1 (replicate k KEY_DOWN) =
          Active (?st1\<lparr>current_row := (current_row ?st1 + int k) mod int n\<rparr>)"
    using Suc.prems n by (intro Suc.IH) simp_all
  moreover have "((current_row st + 1) mod int n + int k) mod int n =
                 (current_row st + int (Suc k)) mod int n"
  proof -
    have "((current_row st + 1) mod int n + int k) mod int n =
          (current_row st + 1 + int k) mod int n"
      by (rule mod_add_left_eq)
    also have "current_row st + 1 + int k = current_row st + int (Suc k)"
      by simp
    finally show ?thesis .
  qed
  ultimately show ?case using step by simp
qed

section \<open>The filtered view\<close>

text \<open>
  C1. For every option list \<open>L\<close> and search text \<open>s\<close>, the filtered list that the
  selector computes is \<open>L\<close> with exactly the options kept whose lower-cased name has the
  lower-cased search text as a contiguous substring (some text before it and some text
  after it make up the name), and it is a subsequence of \<open>L\<close>, so the options keep the
  order they have in \<open>L\<close>.
\<close>

theorem filtered_options_is_filter:
  "filtered_options lower L s =
     filter (\<lambda>opt. \<exists>pre suf. lower (name opt) = pre @ lower s @ suf) L
   \<and> subseq (filtered_options lower L s) L"
proof -
  have eq: "filtered_options lower L s =
              filter (\<lambda>opt. \<exists>pre suf. lower (name opt) = pre @ lower s @ suf) L"
    by (induction L) (simp_all add: str_in_iff)
  then show ?thesis by simp
qed

section \<open>Navigation\<close>

text \<open>
  C5. In a filtered view of length \<open>n > 0\<close> with the cursor at \<open>c\<close>, \<open>0 \<le> c < n\<close>:
  the down key moves the cursor to \<open>(c + 1) mod n\<close>, which is 0 from the last row; the up
  key moves it to \<open>(c - 1) mod n\<close>, which is the last row from row 0; \<open>n\<close> down keys in a
  row bring the selector back to the state it was in, and so does an up key followed by
  a down key. None of these keys ends the loop.
\<close>

theorem navigation_wraps:
  assumes "length (filtered_options lower options (search_text st)) = n"
      and "0 < n" and "0 \<le> current_row st" and "current_row st < int n"
  shows "display_step lower options st KEY_DOWN =
           Active (st\<lparr>current_row := (current_row st + 1) mod int n\<rparr>)
       \<and> display_step lower options st KEY_UP =
           Active (st\<lparr>current_row := (current_row st - 1) mod int n\<rparr>)
       \<and> (current_row st = int n - 1 \<longrightarrow>
            display_step lower options st KEY_DOWN = Active (st\<lparr>current_row := 0\<rparr>))
       \<and> (current_row st = 0 \<longrightarrow>
            display_step lower options st KEY_UP = Active (st\<lparr>current_row := int n - 1\<rparr>))
       \<and> display_loop lower options st (replicate n KEY_DOWN) = Active st
       \<and> display_loop lower options st [KEY_UP, KEY_DOWN] = Active st"
proof -
  have ne: "filtered_options lower options (search_text st) \<noteq> []"
    using assms(1,2) by auto
  have down: "display_step lower options st KEY_DOWN =
                Active (st\<lparr>current_row := (current_row st + 1) mod int n\<rparr>)"
    using ne assms(1) by (simp add: step_down)
  have up: "display_step lower options st KEY_UP =
              Active (st\<lparr>current_row := (current_row st - 1) mod int n\<rparr>)"
    using ne assms(1) by (simp add: step_up)
  have last_row: "current_row st = int n - 1 \<longrightarrow>
      display_step lower options st KEY_DOWN = Active (st\<lparr>current_row := 0\<rparr>)"
    using down by simp
  have "(- 1) mod int n = int n - 1"
    using assms(2) by (simp add: zmod_minus1)
  then have first_row: "current_row st = 0 \<longrightarrow>
      display_step lower options st KEY_UP = Active (st\<lparr>current_row := int n - 1\<rparr>)"
    using up by simp
  have "display_loop lower options st (replicate n KEY_DOWN) =
          Active (st\<lparr>current_row := (current_row st + int n) mod int n\<rparr>)"
    using assms(1,3,4) by (rule loop_downs)
  then have all_round: "display_loop lower options st (replicate n KEY_DOWN) = Active st"
    using assms(3,4) by simp
  let ?st1 = "st\<lparr>current_row := (current_row st - 1) mod int n\<rparr>"
  have "display_step lower options ?st1 KEY_DOWN =
          Active (?st1\<lparr>current_row := (current_row ?st1 + 1) mod int n\<rparr>)"
    using ne assms(1) by (simp add: step_down)
  moreover have "((current_row st - 1) mod int n + 1) mod int n = current_row st"
  proof -
    have "((current_row st - 1) mod int n + 1) mod int n = (current_row st - 1 + 1) mod int n"
      by (rule mod_add_left_eq)
    then show ?thesis using assms(3,4) by simp
  qed
  ultimately have up_down: "display_loop lower options st [KEY_UP, KEY_DOWN] = Active st"
    using up by simp
  from down up last_row first_row all_round up_down show ?thesis by blast
qed

theorem navigation_wraps_witness:
  "length (filtered_options ascii_lower teams (str ''t'')) = 2
   \<and> display_step ascii_lower teams \<lparr>current_row = 1, search_text = str ''t''\<rparr> KEY_DOWN =
       Active \<lparr>current_row = 0, search_text = str ''t''\<rparr>
   \<and> display_step ascii_lower teams \<lparr>current_row = 1, search_text = str ''t''\<rparr> KEY_UP =
       Active \<lparr>current_row = 0, search_text = str ''t''\<rparr>
   \<and> display_loop ascii_lower teams \<lparr>current_row = 1, search_text = str ''t''\<rparr>
       [KEY_DOWN, KEY_DOWN] = Active \<lparr>current_row = 1, search_text = str ''t''\<rparr>
   \<and> display_loop ascii_lower teams \<lparr>current_row = 1, search_text = str ''t''\<rparr>
       [KEY_UP, KEY_DOWN] = Active \<lparr>current_row = 1, search_text = str ''t''\<rparr>"
proof -
  let ?st = "\<lparr>current_row = 1, search_text = str ''t''\<rparr>"
  have len: "length (filtered_options ascii_lower teams (search_text ?st)) = 2"
    by (simp add: teams_def str_def ascii_lower_def)
  have two: "replicate 2 KEY_DOWN = [KEY_DOWN, KEY_DOWN]"
    by (simp add: numeral_2_eq_2)
  show ?thesis
    using navigation_wraps [of ascii_lower teams ?st 2, OF len] len two
    by (simp del: display_loop.simps)
qed

text \<open>
  C8. With the options Team A, Team B and Alpha, an empty search text and the cursor
  on row 0 (the state the selector starts in), two down keys leave the cursor on row 2,
  which shows Alpha, and Enter (any of the three codes the selector takes for it) then
  returns the identifier 3. The lower-casing function is only asked to map the empty
  string to itself.
\<close>

theorem scenario_down_down_enter:
  assumes "lower [] = []"
  shows "display_filterable_list lower [KEY_DOWN, KEY_DOWN] teams =
           Active \<lparr>current_row = 2, search_text = []\<rparr>
       \<and> py_getitem (filtered_options lower teams []) 2 =
           Inr \<lparr>name = str ''Alpha'', ident = str ''3''\<rparr>
       \<and> display_filterable_list lower [KEY_DOWN, KEY_DOWN, 10] teams = Returned (Some (str ''3''))
       \<and> display_filterable_list lower [KEY_DOWN, KEY_DOWN, 13] teams = Returned (Some (str ''3''))
       \<and> display_filterable_list lower [KEY_DOWN, KEY_DOWN, KEY_ENTER] teams =
           Returned (Some (str ''3''))"
proof -
  have view: "filtered_options lower teams [] = teams"
    using assms by (simp add: teams_def str_in_empty)
  have len: "length teams = 3" "teams \<noteq> []"
    by (simp_all add: teams_def)
  have d1: "display_step lower teams \<lparr>current_row = 0, search_text = []\<rparr> KEY_DOWN =
              Active \<lparr>current_row = 1, search_text = []\<rparr>"
    using view len by (simp add: step_down)
  have d2: "display_step lower teams \<lparr>current_row = 1, search_text = []\<rparr> KEY_DOWN =
              Active \<lparr>current_row = 2, search_text = []\<rparr>"
    using view len by (simp add: step_down)
  have item: "py_getitem teams 2 = Inr \<lparr>name = str ''Alpha'', ident = str ''3''\<rparr>"
    by (simp add: py_getitem_def teams_def)
  have enter: "display_step lower teams \<lparr>current_row = 2, search_text = []\<rparr> key =
                 Returned (Some (str ''3''))"
    if "key = KEY_ENTER \<or> key = 10 \<or> key = 13" for key
    using that view item by (simp add: step_enter)
  show ?thesis
    using d1 d2 item view enter [of 10] enter [of 13] enter [of KEY_ENTER]
    by (simp add: display_filterable_list_def)
qed

theorem scenario_down_down_enter_witness:
  "ascii_lower [] = []
   \<and> display_filterable_list ascii_lower [KEY_DOWN, KEY_DOWN] teams =
       Active \<lparr>current_row = 2, search_text = []\<rparr>
   \<and> display_filterable_list ascii_lower [KEY_DOWN, KEY_DOWN, 10] teams =
       Returned (Some (str ''3''))"
proof -
  have h: "ascii_lower [] = []"
    by (simp add: ascii_lower_def)
  show ?thesis
    using h scenario_down_down_enter [of ascii_lower, OF h] by blast
qed

section \<open>Leaving the selector\<close>

text \<open>
  C6. The Escape key (code 27) makes the selector return \<open>None\<close> in the pass that reads
  it, whatever the option list, the search text and the cursor are: one pass on Escape
  returns \<open>None\<close>, the keys after it are never read, and a selector that is still active
  after any keys returns \<open>None\<close> on Escape. \<open>None\<close> is different from every identifier
  that Enter returns.
\<close>

theorem escape_cancels:
  "display_step lower options st 27 = Returned None
   \<and> display_loop lower options st (27 # rest) = Returned None
   \<and> (display_filterable_list lower keys options = Active st \<longrightarrow>
        display_filterable_list lower (keys @ 27 # rest) options = Returned None)
   \<and> display_step lower options st 27 \<noteq> Returned (Some i)"
  by (simp add: step_escape display_filterable_list_def loop_append)

theorem escape_cancels_witness:
  "display_filterable_list ascii_lower [KEY_DOWN, 122] teams =
     Active \<lparr>current_row = 1, search_text = str ''z''\<rparr>
   \<and> filtered_options ascii_lower teams (str ''z'') = []
   \<and> display_filterable_list ascii_lower ([KEY_DOWN, 122] @ [27, 10]) teams = Returned None"
proof -
  have run: "display_filterable_list ascii_lower [KEY_DOWN, 122] teams =
               Active \<lparr>current_row = 1, search_text = str ''z''\<rparr>"
    by (simp add: display_filterable_list_def display_step_def key_defs py_mod_def py_chr_def
        teams_def str_def ascii_lower_def)
  have view: "filtered_options ascii_lower teams (str ''z'') = []"
    by (simp add: teams_def str_def ascii_lower_def)
  show ?thesis
    using run view
      escape_cancels [of ascii_lower teams "\<lparr>current_row = 1, search_text = str ''z''\<rparr>"
        "[10]" "[KEY_DOWN, 122]"]
    by blast
qed

section \<open>Editing the search text\<close>




section \<open>The cursor\<close>

text \<open>
  C10. The cursor index is never negative while the selector runs: it starts at 0, so
  after any keys that leave the selector active it is at least 0. An up or down key
  that leaves the selector active was taken modulo the length of a filtered list that
  is not empty, and its result lies between 0 and that length, whatever the cursor was
  before (on an empty filtered list the pass raises instead of updating the cursor).
\<close>

theorem cursor_never_negative:
  "(display_filterable_list lower keys options = Active st \<longrightarrow> 0 \<le> current_row st)
   \<and> ((key = KEY_UP \<or> key = KEY_DOWN) \<and> display_step lower options st0 key = Active st1 \<longrightarrow>
        0 < length (filtered_options lower options (search_text st0))
        \<and> 0 \<le> current_row st1
        \<and> current_row st1 < int (length (filtered_options lower options (search_text st0))))"
proof -
  have "0 \<le> current_row st" if "display_filterable_list lower keys options = Active st"
    using that loop_cursor_nonneg [of lower options "\<lparr>current_row = 0, search_text = []\<rparr>" keys st]
    by (simp add: display_filterable_list_def)
  moreover have "0 < length (filtered_options lower options (search_text st0))
        \<and> 0 \<le> current_row st1
        \<and> current_row st1 < int (length (filtered_options lower options (search_text st0)))"
    if "key = KEY_UP \<or> key = KEY_DOWN" "display_step lower options st0 key = Active st1"
    using that step_active_cases [of lower options st0 key st1] by auto
  ultimately show ?thesis by blast
qed

theorem cursor_never_negative_witness:
  "display_filterable_list ascii_lower [KEY_UP, 84, KEY_UP] teams =
     Active \<lparr>current_row = 1, search_text = str ''T''\<rparr>
   \<and> 0 \<le> current_row \<lparr>current_row = 1, search_text = str ''T''\<rparr>
   \<and> display_step ascii_lower teams \<lparr>current_row = 2, search_text = str ''T''\<rparr> KEY_UP =
       Active \<lparr>current_row = 1, search_text = str ''T''\<rparr>
   \<and> 0 < length (filtered_options ascii_lower teams (str ''T''))
   \<and> current_row \<lparr>current_row = 1, search_text = str ''T''\<rparr>
       < int (length (filtered_options ascii_lower teams (str ''T'')))"
proof -
  let ?st0 = "\<lparr>current_row = 2, search_text = str ''T''\<rparr>"
  let ?st1 = "\<lparr>current_row = 1, search_text = str ''T''\<rparr>"
  have run: "display_filterable_list ascii_lower [KEY_UP, 84, KEY_UP] teams = Active ?st1"
    by (simp add: display_filterable_list_def display_step_def key_defs py_mod_def py_chr_def
        teams_def str_def ascii_lower_def)
  have step: "display_step ascii_lower teams ?st0 KEY_UP = Active ?st1"
    by (simp add: display_step_def key_defs py_mod_def teams_def str_def ascii_lower_def)
  show ?thesis
    using run step
      cursor_never_negative [of ascii_lower "[KEY_UP, 84, KEY_UP]" teams ?st1 KEY_UP ?st0 ?st1]
    by simp
qed

text \<open>
  C4 does not hold of the selector. The up and down keys keep the cursor inside the
  filtered list (lemma \<open>step_active_cases\<close>), and the drawing and the Enter branch use
  it as an index into that list, but the keys that edit the search text leave it where
  it was. After two down keys the cursor is on row 2 of the three options, inside the
  list; typing T leaves Team A and Team B only, a filtered list of length 2 that is not
  empty, with the cursor still on row 2, outside the list. Enter then raises IndexError.
\<close>

theorem cursor_left_outside_view:
  "display_filterable_list ascii_lower [KEY_DOWN, KEY_DOWN] teams =
     Active \<lparr>current_row = 2, search_text = []\<rparr>
   \<and> cursor_in_view ascii_lower teams \<lparr>current_row = 2, search_text = []\<rparr>
   \<and> display_filterable_list ascii_lower [KEY_DOWN, KEY_DOWN, 84] teams =
     Active \<lparr>current_row = 2, search_text = str ''T''\<rparr>
   \<and> filtered_options ascii_lower teams (str ''T'') =
       [\<lparr>name = str ''Team A'', ident = str ''1''\<rparr>, \<lparr>name = str ''Team B'', ident = str ''2''\<rparr>]
   \<and> \<not> cursor_in_view ascii_lower teams \<lparr>current_row = 2, search_text = str ''T''\<rparr>
   \<and> display_step ascii_lower teams \<lparr>current_row = 2, search_text = str ''T''\<rparr> 10 =
       Raised IndexError"
  by (simp add: display_filterable_list_def display_step_def key_defs py_mod_def py_chr_def
      py_getitem_def cursor_in_view_def teams_def str_def ascii_lower_def)

section \<open>Keys on an empty filtered list\<close>

text \<open>
  The selector draws \<open>No results found.\<close> when the filtered list is empty, but the
  branches for the keys do not look at the list before they use it. On an empty list
  Enter indexes it and the arrow keys divide by its length.
\<close>

lemma step_enter_empty:
  assumes "filtered_options lower options (search_text st) = []"
      and "key = KEY_ENTER \<or> key = 10 \<or> key = 13"
  shows "display_step lower options st key = Raised IndexError"
  using assms by (simp add: step_enter py_getitem_def)

lemma step_arrow_empty:
  assumes "filtered_options lower options (search_text st) = []"
      and "key = KEY_UP \<or> key = KEY_DOWN"
  shows "display_step lower options st key = Raised ZeroDivisionError"
  using assms by (auto simp add: step_up step_down)

text \<open>What does hold of leaving the loop: a pass returns a value only on Enter, with
  the identifier of the option the cursor indexes, or on Escape, with \<open>None\<close>.\<close>

lemma step_returned_cases:
  assumes "display_step lower options st key = Returned r"
  shows "((key = KEY_ENTER \<or> key = 10 \<or> key = 13) \<and>
          filtered_options lower options (search_text st) \<noteq> [] \<and>
          (\<exists>opt. py_getitem (filtered_options lower options (search_text st)) (current_row st) = Inr opt
                 \<and> r = Some (ident opt)))
       \<or> (key = 27 \<and> r = None)"
proof (cases "key = KEY_ENTER \<or> key = 10 \<or> key = 13")
  case True
  then have "display_step lower options st key =
     (case py_getitem (filtered_options lower options (search_text st)) (current_row st) of
        Inl e \<Rightarrow> Raised e
      | Inr opt \<Rightarrow> Returned (Some (ident opt)))"
    by (rule step_enter)
  with assms True show ?thesis
    by (auto simp add: py_getitem_def split: sum.splits if_splits)
next
  case False
  with assms show ?thesis
    by (auto simp add: display_step_def Let_def py_mod_def py_chr_def split: if_splits sum.splits)
qed

text \<open>
  C2 does not hold of the selector. With the options Team A, Team B and Alpha, typing z
  empties the filtered list, and Enter then raises IndexError out of the selector
  instead of being ignored.
\<close>

theorem enter_on_empty_view_raises:
  "display_filterable_list ascii_lower [122] teams = Active \<lparr>current_row = 0, search_text = str ''z''\<rparr>
   \<and> filtered_options ascii_lower teams (str ''z'') = []
   \<and> display_filterable_list ascii_lower [122, 10] teams = Raised IndexError
   \<and> display_filterable_list ascii_lower [122, 13] teams = Raised IndexError
   \<and> display_filterable_list ascii_lower [122, KEY_ENTER] teams = Raised IndexError"
  by (simp add: display_filterable_list_def display_step_def key_defs py_getitem_def py_chr_def
      teams_def str_def ascii_lower_def)

text \<open>
  C3 does not hold of the selector. After z has emptied the filtered list, an up key or
  a down key ends the loop with ZeroDivisionError; and Enter on a filtered list that is
  not empty ends it with IndexError, not with an identifier, when the cursor was left
  behind the end of the list (two down keys, then T).
\<close>

theorem arrow_on_empty_view_raises:
  "filtered_options ascii_lower teams (str ''z'') = []
   \<and> display_filterable_list ascii_lower [122, KEY_UP] teams = Raised ZeroDivisionError
   \<and> display_filterable_list ascii_lower [122, KEY_DOWN] teams = Raised ZeroDivisionError
   \<and> filtered_options ascii_lower teams (str ''T'') \<noteq> []
   \<and> display_filterable_list ascii_lower [KEY_DOWN, KEY_DOWN, 84, 10] teams = Raised IndexError"
  by (simp add: display_filterable_list_def display_step_def key_defs py_mod_def py_getitem_def
      py_chr_def teams_def str_def ascii_lower_def)

section \<open>The role picker\<close>

text \<open>\<open>split_on\<close> cuts at every separator and nowhere else.\<close>

lemma split_on_nonempty: "split_on sep s \<noteq> []"
  by (induction s) (simp_all split: list.splits)

lemma split_on_piece:
  "sep \<notin> set t \<Longrightarrow> split_on sep (t @ sep # rest) = t # split_on sep rest"
  by (induction t) (simp_all split: list.splits)

lemma split_on_last: "sep \<notin> set t \<Longrightarrow> split_on sep t = [t]"
  by (induction t) (simp_all split: list.splits)

lemma parse_indices_all:
  "\<forall>t \<in> set tokens. py_int (strip t) \<noteq> None \<Longrightarrow>
   parse_indices strip py_int tokens = Inr (map (\<lambda>t. the (py_int (strip t)) - 1) tokens)"
  by (induction tokens) auto

lemma parse_indices_some:
  "\<exists>t \<in> set tokens. py_int (strip t) = None \<Longrightarrow>
   \<exists>t \<in> set tokens. parse_indices strip py_int tokens = Inl (InvalidLiteral (strip t))"
proof (induction tokens)
  case Nil
  then show ?case by simp
next
  case (Cons index rest)
  show ?case
  proof (cases "py_int (strip index)")
    case None
    then show ?thesis by simp
  next
    case (Some i)
    with Cons.prems have "\<exists>t \<in> set rest. py_int (strip t) = None" by auto
    then obtain t where "t \<in> set rest"
        and "parse_indices strip py_int rest = Inl (InvalidLiteral (strip t))"
      using Cons.IH by blast
    with Some show ?thesis by auto
  qed
qed

lemma collect_role_ids_all:
  "\<forall>i \<in> set indices. 0 \<le> i \<and> i < int (length roles) \<Longrightarrow>
   collect_role_ids roles indices acc = Inr (acc @ map (\<lambda>i. ident (roles ! nat i)) indices)"
  by (induction indices arbitrary: acc) simp_all

lemma collect_role_ids_some:
  "\<exists>i \<in> set indices. i < 0 \<or> int (length roles) \<le> i \<Longrightarrow>
   collect_role_ids roles indices acc = Inl InvalidRoleSelection"
  by (induction indices arbitrary: acc) auto

text \<open>
  C9. Let the line typed at the prompt be cut at its commas. If every piece, stripped,
  is read by \<open>int\<close> as a number \<open>i\<close> with \<open>1 \<le> i \<le> len(roles)\<close>, the function returns the
  identifiers of \<open>roles[i-1]\<close>, one for each piece and in the order of the pieces, so a
  number typed twice is returned twice. If some piece is not read by \<open>int\<close>, or is read as
  a number outside that range, the function prints the input error after the prompt and
  exits with status 1, and returns no list. This holds for every list of roles, the
  empty one included.
\<close>

theorem select_roles_result:
  assumes "split_on 44 typed = tokens"
  shows "((\<forall>t \<in> set tokens. \<exists>i. py_int (strip t) = Some i \<and> 1 \<le> i \<and> i \<le> int (length roles)) \<longrightarrow>
            select_roles strip py_int roles typed =
              (Heading # role_lines 0 roles @ [Prompt],
               Inr (map (\<lambda>t. ident (roles ! nat (the (py_int (strip t)) - 1))) tokens)))
       \<and> ((\<exists>t \<in> set tokens. py_int (strip t) = None \<or>
              (\<exists>i. py_int (strip t) = Some i \<and> (i < 1 \<or> int (length roles) < i))) \<longrightarrow>
            (\<exists>ve. select_roles strip py_int roles typed =
              (Heading # role_lines 0 roles @ [Prompt, InputError ve], Inl (SystemExit 1))))"
proof (intro conjI impI)
  assume ok: "\<forall>t \<in> set tokens. \<exists>i. py_int (strip t) = Some i \<and> 1 \<le> i \<and> i \<le> int (length roles)"
  then have "\<forall>t \<in> set tokens. py_int (strip t) \<noteq> None" by auto
  then have parsed: "parse_indices strip py_int tokens =
                       Inr (map (\<lambda>t. the (py_int (strip t)) - 1) tokens)"
    by (rule parse_indices_all)
  have "\<forall>i \<in> set (map (\<lambda>t. the (py_int (strip t)) - 1) tokens). 0 \<le> i \<and> i < int (length roles)"
    using ok by auto
  then have "collect_role_ids roles (map (\<lambda>t. the (py_int (strip t)) - 1) tokens) [] =
               Inr ([] @ map (\<lambda>i. ident (roles ! nat i)) (map (\<lambda>t. the (py_int (strip t)) - 1) tokens))"
    by (rule collect_role_ids_all)
  with parsed assms show "select_roles strip py_int roles typed =
      (Heading # role_lines 0 roles @ [Prompt],
       Inr (map (\<lambda>t. ident (roles ! nat (the (py_int (strip t)) - 1))) tokens))"
    by (simp add: select_roles_def comp_def)
next
  assume bad: "\<exists>t \<in> set tokens. py_int (strip t) = None \<or>
                 (\<exists>i. py_int (strip t) = Some i \<and> (i < 1 \<or> int (length roles) < i))"
  show "\<exists>ve. select_roles strip py_int roles typed =
          (Heading # role_lines 0 roles @ [Prompt, InputError ve], Inl (SystemExit 1))"
  proof (cases "\<exists>t \<in> set tokens. py_int (strip t) = None")
    case True
    then obtain t where "parse_indices strip py_int tokens = Inl (InvalidLiteral (strip t))"
      using parse_indices_some [of tokens py_int strip] by blast
    with assms show ?thesis by (simp add: select_roles_def)
  next
    case False
    then have parsed: "parse_indices strip py_int tokens =
                         Inr (map (\<lambda>t. the (py_int (strip t)) - 1) tokens)"
      by (intro parse_indices_all) simp
    from bad False obtain t i where "t \<in> set tokens" "py_int (strip t) = Some i"
        "i < 1 \<or> int (length roles) < i"
      by auto
    then have "\<exists>j \<in> set (map (\<lambda>t. the (py_int (strip t)) - 1) tokens).
                 j < 0 \<or> int (length roles) \<le> j"
      by force
    then have "collect_role_ids roles (map (\<lambda>t. the (py_int (strip t)) - 1) tokens) [] =
                 Inl InvalidRoleSelection"
      by (rule collect_role_ids_some)
    with parsed assms show ?thesis by (simp add: select_roles_def)
  qed
qed

theorem select_roles_result_witness:
  "split_on 44 (str ''2, 1,2'') = [str ''2'', str '' 1'', str ''2'']
   \<and> select_roles ascii_strip ascii_int three_roles (str ''2, 1,2'') =
       (Heading # role_lines 0 three_roles @ [Prompt], Inr [str ''r2'', str ''r1'', str ''r2''])
   \<and> split_on 44 (str ''2,x'') = [str ''2'', str ''x'']
   \<and> ascii_int (ascii_strip (str ''x'')) = None
   \<and> snd (select_roles ascii_strip ascii_int three_roles (str ''2,x'')) = Inl (SystemExit 1)"
proof -
  have tok: "split_on 44 (str ''2, 1,2'') = [str ''2'', str '' 1'', str ''2'']"
    by (simp add: str_def)
  have ints: "ascii_int (ascii_strip (str ''2'')) = Some 2"
      "ascii_int (ascii_strip (str '' 1'')) = Some 1"
    by (simp_all add: ascii_int_def ascii_strip_def ascii_space_def ascii_digit_def str_def)
  have len: "length three_roles = 3"
    by (simp add: three_roles_def)
  have picked: "select_roles ascii_strip ascii_int three_roles (str ''2, 1,2'') =
                  (Heading # role_lines 0 three_roles @ [Prompt],
                   Inr [str ''r2'', str ''r1'', str ''r2''])"
    using select_roles_result [OF tok, where py_int = ascii_int and strip = ascii_strip
        and roles = three_roles] ints len
    by (simp add: three_roles_def)
  have tok': "split_on 44 (str ''2,x'') = [str ''2'', str ''x'']"
    by (simp add: str_def)
  have bad: "ascii_int (ascii_strip (str ''x'')) = None"
    by (simp add: ascii_int_def ascii_strip_def ascii_space_def ascii_digit_def str_def)
  have refused: "snd (select_roles ascii_strip ascii_int three_roles (str ''2,x'')) =
                   Inl (SystemExit 1)"
    using select_roles_result [OF tok', where py_int = ascii_int and strip = ascii_strip
        and roles = three_roles] bad
    by auto
  from tok picked tok' bad refused show ?thesis by blast
qed

end
